theory Spec2Isabelle
  imports Complex_Main
begin

section \<open>The data reader for problem 5.1 (signal detection)\<close>

text \<open>
  The script \<^verbatim>\<open>DataReader_Problem5.1_SignalDetection.py\<close> is a straight line of
  statements:
  \<^verbatim>\<open>
  data = np.genfromtxt('data_SignalDetection.csv', delimiter = ',', skip_header=1)
  print("  Shape of data: ", data.shape)
  index = data[:,0].astype(int)
  P     = data[:,1]
  R     = data[:,2]
  freq  = data[:,3]
  type  = data[:,4].astype(int)
  print(index[0:3])
  print(P[0:3])
  print(R[0:3])
  print(freq[0:3])
  print(type[0:3])
  \<close>
  Each statement is a call into numpy, so the embedding gives every numpy operation the
  script uses (\<^verbatim>\<open>genfromtxt\<close>, \<^verbatim>\<open>a[:,j]\<close>, \<^verbatim>\<open>astype(int)\<close>, \<^verbatim>\<open>a[0:3]\<close>,
  \<^verbatim>\<open>shape\<close>) as a function on arrays, with every exception as a value.
\<close>

subsection \<open>Exceptions, floats and arrays\<close>

datatype error = FileNotFoundError | ValueError | IndexError

text \<open>
  A \<^verbatim>\<open>float64\<close> is a finite number, an infinity or not-a-number. Every finite
  \<^verbatim>\<open>float64\<close> is a rational number; which rationals are representable plays no role
  below.
\<close>

datatype fl = Fin rat | PInf | MInf | NaN

text \<open>An array is its shape and its elements in row-major order.\<close>

datatype 'a ndarray = ND (shape: "nat list") (flat: "'a list")

text \<open>
  Two things are fixed by the interpreter and the machine rather than by the script, and
  are parameters of the model:
  \<^item> \<open>float_of\<close> is Python's \<^verbatim>\<open>float(s)\<close> on a string, \<open>None\<close> when it raises
    \<^verbatim>\<open>ValueError\<close>; it carries the rounding of a decimal literal to \<^verbatim>\<open>float64\<close>;
  \<^item> \<open>cast_invalid\<close> is the integer that the cast of not-a-number, of an infinity or of
    a value outside the 64-bit range leaves in an integer array (the C cast is undefined
    there; numpy warns and stores what the machine instruction returns).
\<close>

record runtime =
  float_of :: "string \<Rightarrow> fl option"
  cast_invalid :: int

text \<open>The file system: a path has the list of its lines, or does not exist.\<close>

type_synonym filesystem = "string \<Rightarrow> string list option"

subsection \<open>Splitting a line\<close>

text \<open>Python's \<^verbatim>\<open>s.split(d)\<close> for a one-character separator.\<close>

fun split_delim :: "char \<Rightarrow> string \<Rightarrow> string list" where
  "split_delim d [] = [[]]"
| "split_delim d (c # cs) =
     (if c = d then [] # split_delim d cs
      else (case split_delim d cs of
              [] \<Rightarrow> [[c]]
            | t # ts \<Rightarrow> (c # t) # ts))"

text \<open>Python's \<^verbatim>\<open>s.strip(chars)\<close>.\<close>

definition strip_chars :: "char list \<Rightarrow> string \<Rightarrow> string" where
  "strip_chars cs s =
     rev (dropWhile (\<lambda>c. c \<in> set cs) (rev (dropWhile (\<lambda>c. c \<in> set cs) s)))"

text \<open>
  The line splitter of \<^verbatim>\<open>genfromtxt\<close> with its defaults \<^verbatim>\<open>comments='#'\<close> and
  \<^verbatim>\<open>autostrip=False\<close> and the script's \<^verbatim>\<open>delimiter=','\<close>: the text from the first
  \<^verbatim>\<open>#\<close> on is dropped (\<^verbatim>\<open>line.split('#')[0]\<close>), blanks and line ends are stripped
  from both ends of the line, an empty line has no field, any other line is split at
  the commas.
\<close>

definition split_line :: "string \<Rightarrow> string list" where
  "split_line line =
     (let l1 = takeWhile (\<lambda>c. c \<noteq> CHR ''#'') line;
          l2 = strip_chars [CHR '' '', CHR 0x0D, CHR 0x0A] l1
      in if l2 = [] then [] else split_delim (CHR '','') l2)"

subsection \<open>The numpy operations of the script\<close>

text \<open>
  The converter of a float column in loose mode (the default): \<^verbatim>\<open>float(value)\<close>, and
  the default of the column, not-a-number, when that raises \<^verbatim>\<open>ValueError\<close>.
\<close>

definition loose_call :: "runtime \<Rightarrow> string \<Rightarrow> fl" where
  "loose_call rt v = (case float_of rt v of Some x \<Rightarrow> x | None \<Rightarrow> NaN)"

text \<open>\<^verbatim>\<open>np.array(rows)\<close> on a list of rows of one length.\<close>

definition np_array :: "'a list list \<Rightarrow> 'a ndarray" where
  "np_array rows =
     (case rows of
        [] \<Rightarrow> ND [0] []
      | r # _ \<Rightarrow> ND [length rows, length r] (concat rows))"

text \<open>\<^verbatim>\<open>np.squeeze\<close>: every axis of length one is removed.\<close>

definition squeeze :: "'a ndarray \<Rightarrow> 'a ndarray" where
  "squeeze a = ND (filter (\<lambda>n. n \<noteq> 1) (shape a)) (flat a)"

text \<open>
  \<^verbatim>\<open>np.genfromtxt(fname, delimiter=',', skip_header=1)\<close>. A missing file raises.
  The first line is skipped. Every other line is split; a line without fields is skipped.
  The first line with fields fixes the number of columns; a line with another number of
  fields is recorded as invalid, and any invalid line raises \<^verbatim>\<open>ValueError\<close> after the
  last line is read. Otherwise every field is converted, the rows are made an array and
  the array is squeezed. No line with fields at all gives the empty array of shape
  \<^verbatim>\<open>(0,)\<close> (and a warning). \<open>data_rows\<close> is the list \<^verbatim>\<open>rows\<close> of the routine, before
  conversion.
\<close>

definition data_rows :: "string list \<Rightarrow> string list list" where
  "data_rows lines = filter (\<lambda>v. v \<noteq> []) (map split_line (drop 1 lines))"

definition genfromtxt :: "runtime \<Rightarrow> filesystem \<Rightarrow> string \<Rightarrow> error + fl ndarray" where
  "genfromtxt rt fs fname =
     (case fs fname of
        None \<Rightarrow> Inl FileNotFoundError
      | Some lines \<Rightarrow>
          (let rows = data_rows lines
           in case rows of
                [] \<Rightarrow> Inr (squeeze (np_array []))
              | first_values # _ \<Rightarrow>
                  (let nbcols = length first_values
                   in if list_ex (\<lambda>v. length v \<noteq> nbcols) rows then Inl ValueError
                      else Inr (squeeze (np_array (map (map (loose_call rt)) rows))))))"

text \<open>
  \<^verbatim>\<open>a[:,j]\<close> for \<open>0 \<le> j\<close>: an array of fewer than two dimensions has too many indices,
  and \<open>j\<close> must be below the length of the second axis. The second axis is removed.
\<close>

definition column :: "'a ndarray \<Rightarrow> nat \<Rightarrow> error + 'a ndarray" where
  "column a j =
     (case shape a of
        n # m # rest \<Rightarrow>
          if j < m
          then Inr (ND (n # rest)
                 (concat (map (\<lambda>i. take (prod_list rest)
                                      (drop ((i * m + j) * prod_list rest) (flat a)))
                              [0..<n])))
          else Inl IndexError
      | _ \<Rightarrow> Inl IndexError)"

text \<open>
  \<^verbatim>\<open>astype(int)\<close> on one element is the C cast of a double to a 64-bit integer: a
  finite value loses its fraction, and when what is left fits 64 bits that is the result.
\<close>

definition to_int :: "runtime \<Rightarrow> fl \<Rightarrow> int" where
  "to_int rt x =
     (case x of
        Fin r \<Rightarrow>
          (let k = (if 0 \<le> r then \<lfloor>r\<rfloor> else \<lceil>r\<rceil>)
           in if - (2 ^ 63) \<le> k \<and> k < 2 ^ 63 then k else cast_invalid rt)
      | _ \<Rightarrow> cast_invalid rt)"

definition astype_int :: "runtime \<Rightarrow> fl ndarray \<Rightarrow> int ndarray" where
  "astype_int rt a = ND (shape a) (map (to_int rt) (flat a))"

text \<open>
  \<^verbatim>\<open>a[0:k]\<close>: a slice of the first axis. A slice never reads out of range: it ends
  where the axis ends. Only an array without any axis cannot be sliced.
\<close>

definition slice_upto :: "'a ndarray \<Rightarrow> nat \<Rightarrow> error + 'a ndarray" where
  "slice_upto a k =
     (case shape a of
        [] \<Rightarrow> Inl IndexError
      | n # rest \<Rightarrow> Inr (ND (min k n # rest) (take (min k n * prod_list rest) (flat a))))"

subsection \<open>The script\<close>

text \<open>The variables of the script once line 26 has run.\<close>

record table =
  data :: "fl ndarray"
  index :: "int ndarray"
  P :: "fl ndarray"
  R :: "fl ndarray"
  freq :: "fl ndarray"
  type :: "int ndarray"

definition fname :: string where
  "fname = ''data_SignalDetection.csv''"

definition bind :: "error + 'a \<Rightarrow> ('a \<Rightarrow> error + 'b) \<Rightarrow> error + 'b" where
  "bind m f = (case m of Inl e \<Rightarrow> Inl e | Inr x \<Rightarrow> f x)"

text \<open>Lines 22 to 26: the five columns, in the order of the statements.\<close>

definition extract_columns :: "runtime \<Rightarrow> fl ndarray \<Rightarrow> error + table" where
  "extract_columns rt d =
     bind (column d 0) (\<lambda>c0.
     bind (column d 1) (\<lambda>c1.
     bind (column d 2) (\<lambda>c2.
     bind (column d 3) (\<lambda>c3.
     bind (column d 4) (\<lambda>c4.
       Inr \<lparr> data = d, index = astype_int rt c0, P = c1, R = c2, freq = c3,
             type = astype_int rt c4 \<rparr>)))))"

text \<open>The operation \<open>load\<close> of the specification: line 19, then lines 22 to 26.\<close>

definition load :: "runtime \<Rightarrow> filesystem \<Rightarrow> error + table" where
  "load rt fs = bind (genfromtxt rt fs fname) (extract_columns rt)"

text \<open>
  A printed line, before numpy renders it as text: the shape after the fixed label, or
  the elements of an integer or of a float array.
\<close>

datatype line = ShapeLine "nat list" | IntLine "int list" | FloatLine "fl list"

text \<open>
  Statements that print run in order; the first that raises ends the run, and what was
  printed before it stays printed.
\<close>

fun run_prints :: "(error + line) list \<Rightarrow> line list \<times> error option" where
  "run_prints [] = ([], None)"
| "run_prints (Inl e # ps) = ([], Some e)"
| "run_prints (Inr l # ps) = (case run_prints ps of (ls, r) \<Rightarrow> (l # ls, r))"

definition print_shape :: "'a ndarray \<Rightarrow> error + line" where
  "print_shape a = Inr (ShapeLine (shape a))"

definition print_ints :: "int ndarray \<Rightarrow> error + line" where
  "print_ints a = bind (slice_upto a 3) (\<lambda>s. Inr (IntLine (flat s)))"

definition print_floats :: "fl ndarray \<Rightarrow> error + line" where
  "print_floats a = bind (slice_upto a 3) (\<lambda>s. Inr (FloatLine (flat s)))"

text \<open>Lines 28 to 32.\<close>

definition print_slices :: "table \<Rightarrow> (error + line) list" where
  "print_slices t =
     [print_ints (index t), print_floats (P t), print_floats (R t),
      print_floats (freq t), print_ints (type t)]"

text \<open>The operation \<open>inspect\<close> of the specification: line 20 and lines 28 to 32.\<close>

definition inspect :: "table \<Rightarrow> line list \<times> error option" where
  "inspect t = run_prints (print_shape (data t) # print_slices t)"

text \<open>
  The whole script, in the order of its statements: what it printed, and the exception
  that ended it or the variables it ended with.
\<close>

definition script :: "runtime \<Rightarrow> filesystem \<Rightarrow> line list \<times> (error + table)" where
  "script rt fs =
     (case genfromtxt rt fs fname of
        Inl e \<Rightarrow> ([], Inl e)
      | Inr d \<Rightarrow>
          (case run_prints [print_shape d] of
             (out1, Some e) \<Rightarrow> (out1, Inl e)
           | (out1, None) \<Rightarrow>
               (case extract_columns rt d of
                  Inl e \<Rightarrow> (out1, Inl e)
                | Inr t \<Rightarrow>
                    (case run_prints (print_slices t) of
                       (out2, Some e) \<Rightarrow> (out1 @ out2, Inl e)
                     | (out2, None) \<Rightarrow> (out1 @ out2, Inr t)))))"

text \<open>The number of rows of a table: the first component of the shape of \<open>data\<close>.\<close>

definition rowCount :: "table \<Rightarrow> nat" where
  "rowCount t = (case shape (data t) of [] \<Rightarrow> 0 | n # _ \<Rightarrow> n)"

subsection \<open>The data model of the specification\<close>

text \<open>
  A data line is well formed when the splitter finds five fields in it and \<^verbatim>\<open>float\<close>
  accepts each of them.
\<close>

definition five_fields :: "string \<Rightarrow> bool" where
  "five_fields l = (length (split_line l) = 5)"

definition numeric_fields :: "runtime \<Rightarrow> string \<Rightarrow> bool" where
  "numeric_fields rt l = list_all (\<lambda>v. float_of rt v \<noteq> None) (split_line l)"

definition well_formed_row :: "runtime \<Rightarrow> string \<Rightarrow> bool" where
  "well_formed_row rt l = (five_fields l \<and> numeric_fields rt l)"

text \<open>
  The invariant of a DataTable: each of the five sequences is one-dimensional and has
  \<open>rowCount\<close> elements.
\<close>

definition sequence_of_length :: "'a ndarray \<Rightarrow> nat \<Rightarrow> bool" where
  "sequence_of_length a n = (shape a = [n] \<and> length (flat a) = n)"

definition table_inv :: "table \<Rightarrow> bool" where
  "table_inv t =
     (sequence_of_length (index t) (rowCount t) \<and> sequence_of_length (P t) (rowCount t) \<and>
      sequence_of_length (R t) (rowCount t) \<and> sequence_of_length (freq t) (rowCount t) \<and>
      sequence_of_length (type t) (rowCount t))"

text \<open>
  The table with the columns read off the rows of fields directly; the proofs show that
  \<open>load\<close> builds it from rows of one length \<open>m\<close>.
\<close>

definition table_of :: "runtime \<Rightarrow> string list list \<Rightarrow> nat \<Rightarrow> table" where
  "table_of rt recs m =
     \<lparr> data = ND [length recs, m] (concat (map (map (loose_call rt)) recs)),
       index = ND [length recs] (map (\<lambda>r. to_int rt (loose_call rt (r ! 0))) recs),
       P = ND [length recs] (map (\<lambda>r. loose_call rt (r ! 1)) recs),
       R = ND [length recs] (map (\<lambda>r. loose_call rt (r ! 2)) recs),
       freq = ND [length recs] (map (\<lambda>r. loose_call rt (r ! 3)) recs),
       type = ND [length recs] (map (\<lambda>r. to_int rt (loose_call rt (r ! 4))) recs) \<rparr>"

subsection \<open>A runtime and files to run the script on\<close>

text \<open>
  The theorems hold for every runtime. To run the script on files, \<open>dec_float\<close> stands
  for \<^verbatim>\<open>float\<close> on the strings of the files below. It reads the plain decimal
  literals: an optional sign, digits, and an optional point with digits, at least one
  digit in all. The literals in the files are multiples of a power of one half, so
  \<^verbatim>\<open>float\<close> returns their value without rounding; the one other field (\<^verbatim>\<open>bad\<close>) is
  a string \<^verbatim>\<open>float\<close> rejects.
\<close>

definition is_digit :: "char \<Rightarrow> bool" where
  "is_digit c = (c \<in> set ''0123456789'')"

fun digits_value :: "nat \<Rightarrow> string \<Rightarrow> nat" where
  "digits_value acc [] = acc"
| "digits_value acc (c # cs) = digits_value (10 * acc + (of_char c - 48)) cs"

definition dec_float :: "string \<Rightarrow> fl option" where
  "dec_float s =
     (let neg = (take 1 s = ''-'');
          body = (if take 1 s = ''-'' \<or> take 1 s = ''+'' then drop 1 s else s);
          ip = takeWhile is_digit body;
          rest = dropWhile is_digit body;
          fp = (if rest = [] then Some []
                else if take 1 rest = ''.'' \<and> list_all is_digit (drop 1 rest)
                     then Some (drop 1 rest) else None)
      in case fp of
           None \<Rightarrow> None
         | Some f \<Rightarrow>
             if ip = [] \<and> f = [] then None
             else (let v = of_nat (digits_value 0 (ip @ f)) / 10 ^ length f
                   in Some (Fin (if neg then - v else v))))"

text \<open>A 64-bit machine whose cast instruction answers an invalid cast with \<open>- 2\<^sup>6\<^sup>3\<close>.\<close>

definition rt0 :: runtime where
  "rt0 = \<lparr> float_of = dec_float, cast_invalid = - (2 ^ 63) \<rparr>"

definition on_disk :: "string list \<Rightarrow> filesystem" where
  "on_disk lines = (\<lambda>p. if p = fname then Some lines else None)"

definition file_four :: "string list" where
  "file_four =
     [''idx,P,R,nu,type'',
      ''0,0.5,1.5,440.0,1'',
      ''1,0.25,1.75,441.5,0'',
      ''2,0.75,1.25,442.5,-1'',
      ''3,0.125,1.625,443.25,1'']"

definition file_bad :: "string list" where
  "file_bad =
     [''idx,P,R,nu,type'',
      ''0,0.5,1.5,440.0,1'',
      ''1,0.25,1.75,441.5,0'',
      ''2,0.75,1.25,bad,-1'']"

definition file_two :: "string list" where
  "file_two =
     [''idx,P,R,nu,type'',
      ''0,0.5,1.5,440.0,1'',
      ''1,0.25,1.75,441.5,0'']"

definition file_one :: "string list" where
  "file_one = [''idx,P,R,nu,type'', ''0,0.5,1.5,440.0,1'']"

definition file_header :: "string list" where
  "file_header = [''idx,P,R,nu,type'']"

definition file_fractions :: "string list" where
  "file_fractions =
     [''idx,P,R,nu,type'',
      ''0.5,0.5,1.5,440.0,1.75'',
      ''1.5,0.25,1.75,441.5,-0.5'',
      ''-2.75,0.75,1.25,442.5,-1.25'']"


definition file_one_fraction :: "string list" where
  "file_one_fraction = [''idx,P,R,nu,type'', ''0.5,0.5,1.5,440.0,1'']"

text \<open>The tables the script ends with on four of these files.\<close>

definition table_four :: table where
  "table_four =
     \<lparr> data = ND [4, 5]
         [Fin 0, Fin (1 / 2), Fin (3 / 2), Fin 440, Fin 1,
          Fin 1, Fin (1 / 4), Fin (7 / 4), Fin (883 / 2), Fin 0,
          Fin 2, Fin (3 / 4), Fin (5 / 4), Fin (885 / 2), Fin (- 1),
          Fin 3, Fin (1 / 8), Fin (13 / 8), Fin (1773 / 4), Fin 1],
       index = ND [4] [0, 1, 2, 3],
       P = ND [4] [Fin (1 / 2), Fin (1 / 4), Fin (3 / 4), Fin (1 / 8)],
       R = ND [4] [Fin (3 / 2), Fin (7 / 4), Fin (5 / 4), Fin (13 / 8)],
       freq = ND [4] [Fin 440, Fin (883 / 2), Fin (885 / 2), Fin (1773 / 4)],
       type = ND [4] [1, 0, - 1, 1] \<rparr>"

definition table_bad :: table where
  "table_bad =
     \<lparr> data = ND [3, 5]
         [Fin 0, Fin (1 / 2), Fin (3 / 2), Fin 440, Fin 1,
          Fin 1, Fin (1 / 4), Fin (7 / 4), Fin (883 / 2), Fin 0,
          Fin 2, Fin (3 / 4), Fin (5 / 4), NaN, Fin (- 1)],
       index = ND [3] [0, 1, 2],
       P = ND [3] [Fin (1 / 2), Fin (1 / 4), Fin (3 / 4)],
       R = ND [3] [Fin (3 / 2), Fin (7 / 4), Fin (5 / 4)],
       freq = ND [3] [Fin 440, Fin (883 / 2), NaN],
       type = ND [3] [1, 0, - 1] \<rparr>"

definition table_two :: table where
  "table_two =
     \<lparr> data = ND [2, 5]
         [Fin 0, Fin (1 / 2), Fin (3 / 2), Fin 440, Fin 1,
          Fin 1, Fin (1 / 4), Fin (7 / 4), Fin (883 / 2), Fin 0],
       index = ND [2] [0, 1],
       P = ND [2] [Fin (1 / 2), Fin (1 / 4)],
       R = ND [2] [Fin (3 / 2), Fin (7 / 4)],
       freq = ND [2] [Fin 440, Fin (883 / 2)],
       type = ND [2] [1, 0] \<rparr>"


section \<open>Properties\<close>

subsection \<open>Lines without comment and without blanks at their ends\<close>

text \<open>
  On a line that has no \<^verbatim>\<open>#\<close> and neither starts nor ends with a blank or a line end,
  the fields of the splitter are the pieces between the commas.
\<close>

lemma strip_chars_plain:
  assumes "s \<noteq> []" "hd s \<notin> set cs" "last s \<notin> set cs"
  shows "strip_chars cs s = s"
proof -
  have a: "dropWhile (\<lambda>c. c \<in> set cs) s = s"
    using assms(1,2) by (cases s) simp_all
  have "rev s \<noteq> []" "hd (rev s) \<notin> set cs"
    using assms(1,3) by (simp_all add: hd_rev)
  then have "dropWhile (\<lambda>c. c \<in> set cs) (rev s) = rev s"
    by (cases "rev s") simp_all
  with a show ?thesis by (simp add: strip_chars_def)
qed

lemma split_line_plain:
  assumes "CHR ''#'' \<notin> set l" "l \<noteq> []"
    and "hd l \<notin> {CHR '' '', CHR 0x0D, CHR 0x0A}"
    and "last l \<notin> {CHR '' '', CHR 0x0D, CHR 0x0A}"
  shows "split_line l = split_delim (CHR '','') l"
proof -
  have tw: "takeWhile (\<lambda>c. c \<noteq> CHR ''#'') l = l"
    using assms(1) by (intro takeWhile_eq_all_conv [THEN iffD2]) auto
  have st: "strip_chars [CHR '' '', CHR 0x0D, CHR 0x0A] l = l"
    using assms(2,3,4) by (intro strip_chars_plain) simp_all
  show ?thesis
    unfolding split_line_def Let_def tw st using assms(2) by simp
qed

subsection \<open>Arrays built from rows of one length\<close>

lemma concat_uniform_length:
  "\<forall>r\<in>set rows. length r = m \<Longrightarrow> length (concat rows) = length rows * m"
  by (induction rows) auto

lemma concat_uniform_nth:
  "\<forall>r\<in>set rows. length r = m \<Longrightarrow> i < length rows \<Longrightarrow> j < m
   \<Longrightarrow> concat rows ! (i * m + j) = rows ! i ! j"
proof (induction rows arbitrary: i)
  case Nil
  then show ?case by simp
next
  case (Cons r rows)
  show ?case
  proof (cases i)
    case 0
    with Cons.prems show ?thesis by (simp add: nth_append)
  next
    case (Suc k)
    with Cons.prems have "concat rows ! (k * m + j) = rows ! k ! j"
      using Cons.IH [of k] by simp
    moreover have "Suc k * m + j = m + (k * m + j)" by simp
    ultimately show ?thesis using Cons.prems Suc by (simp add: nth_append)
  qed
qed

lemma index_bound: "i < n \<Longrightarrow> j < m \<Longrightarrow> i * m + j < n * (m::nat)"
proof -
  assume a: "i < n" "j < m"
  then have "i * m + j < i * m + m" by simp
  also have "\<dots> = Suc i * m" by simp
  also have "\<dots> \<le> n * m" using a(1) by (intro mult_le_mono1) simp
  finally show ?thesis .
qed

lemma take_one_drop: "k < length xs \<Longrightarrow> take (Suc 0) (drop k xs) = [xs ! k]"
  by (simp add: take_Suc_conv_app_nth Cons_nth_drop_Suc [symmetric])

lemma column_matrix:
  assumes "length xs = n * m" "j < m"
  shows "column (ND [n, m] xs) j = Inr (ND [n] (map (\<lambda>i. xs ! (i * m + j)) [0..<n]))"
proof -
  have "map (\<lambda>i. take (Suc 0) (drop (i * m + j) xs)) [0..<n]
        = map (\<lambda>i. [xs ! (i * m + j)]) [0..<n]"
    using assms by (intro map_cong refl take_one_drop) (simp add: index_bound)
  then have "concat (map (\<lambda>i. take (Suc 0) (drop (i * m + j) xs)) [0..<n])
        = concat (map (\<lambda>i. [xs ! (i * m + j)]) [0..<n])"
    by (rule arg_cong)
  also have "\<dots> = map (\<lambda>i. xs ! (i * m + j)) [0..<n]"
    by simp
  finally show ?thesis using assms(2) by (simp add: column_def)
qed

lemma map_upt_nth: "map (\<lambda>i. f (xs ! i)) [0..<length xs] = map f xs"
proof -
  have "map (\<lambda>i. f (xs ! i)) [0..<length xs] = map f (map (\<lambda>i. xs ! i) [0..<length xs])"
    by simp
  then show ?thesis by (simp only: map_nth)
qed

lemma column_rows:
  assumes "\<forall>r\<in>set rows. length r = m" "j < m"
  shows "column (ND [length rows, m] (concat rows)) j
         = Inr (ND [length rows] (map (\<lambda>r. r ! j) rows))"
proof -
  have len: "length (concat rows) = length rows * m"
    using assms(1) by (rule concat_uniform_length)
  have "map (\<lambda>i. concat rows ! (i * m + j)) [0..<length rows]
        = map (\<lambda>i. rows ! i ! j) [0..<length rows]"
    using assms by (intro map_cong refl concat_uniform_nth) simp_all
  also have "\<dots> = map (\<lambda>r. r ! j) rows"
    by (rule map_upt_nth)
  finally show ?thesis using column_matrix [OF len assms(2)] by simp
qed

lemma squeeze_matrix:
  "2 \<le> n \<Longrightarrow> 2 \<le> m \<Longrightarrow> squeeze (ND [n, m] xs) = ND [n, m] xs"
  by (simp add: squeeze_def)

lemma np_array_uniform:
  "rows \<noteq> [] \<Longrightarrow> \<forall>r\<in>set rows. length r = m
   \<Longrightarrow> np_array rows = ND [length rows, m] (concat rows)"
  by (cases rows) (simp_all add: np_array_def)

lemma genfromtxt_uniform:
  assumes fl: "fs f = Some lines"
    and rows: "data_rows lines = recs"
    and ne: "recs \<noteq> []"
    and uni: "\<forall>r\<in>set recs. length r = m"
  shows "genfromtxt rt fs f
         = Inr (squeeze (ND [length recs, m] (concat (map (map (loose_call rt)) recs))))"
proof -
  obtain r rs where recs: "recs = r # rs" using ne by (cases recs) auto
  have m: "length r = m" using uni recs by simp
  have noinv: "\<not> list_ex (\<lambda>v. length v \<noteq> m) recs"
    using uni by (simp add: list_ex_iff)
  have arr: "np_array (map (map (loose_call rt)) recs)
             = ND [length recs, m] (concat (map (map (loose_call rt)) recs))"
    using np_array_uniform [of "map (map (loose_call rt)) recs" m] ne uni by simp
  show ?thesis
    using fl rows noinv arr m unfolding genfromtxt_def recs by (simp add: Let_def)
qed

lemma genfromtxt_invalid:
  assumes fl: "fs f = Some lines"
    and rows: "data_rows lines = r # rs"
    and bad: "\<exists>v\<in>set rs. length v \<noteq> length r"
  shows "genfromtxt rt fs f = Inl ValueError"
  using fl rows bad unfolding genfromtxt_def by (auto simp add: Let_def list_ex_iff)

lemma genfromtxt_empty:
  assumes fl: "fs f = Some lines"
    and rows: "data_rows lines = []"
  shows "genfromtxt rt fs f = Inr (ND [0] [])"
  using fl rows unfolding genfromtxt_def by (simp add: Let_def np_array_def squeeze_def)

lemma genfromtxt_missing: "fs f = None \<Longrightarrow> genfromtxt rt fs f = Inl FileNotFoundError"
  by (simp add: genfromtxt_def)

lemma column_converted:
  assumes uni: "\<forall>r\<in>set recs. length r = m" and j: "j < m"
  shows "column (ND [length recs, m] (concat (map (map g) recs))) j
         = Inr (ND [length recs] (map (\<lambda>r. g (r ! j)) recs))"
proof -
  have "column (ND [length (map (map g) recs), m] (concat (map (map g) recs))) j
        = Inr (ND [length (map (map g) recs)] (map (\<lambda>r. r ! j) (map (map g) recs)))"
    using uni j by (intro column_rows) simp_all
  moreover have "map (\<lambda>r. r ! j) (map (map g) recs) = map (\<lambda>r. g (r ! j)) recs"
    using uni j by simp
  ultimately show ?thesis by simp
qed

lemma extract_columns_matrix:
  assumes uni: "\<forall>r\<in>set recs. length r = m" and m: "5 \<le> m"
  shows "extract_columns rt (ND [length recs, m] (concat (map (map (loose_call rt)) recs)))
         = Inr (table_of rt recs m)"
proof -
  have c: "\<And>j. j < 5 \<Longrightarrow>
      column (ND [length recs, m] (concat (map (map (loose_call rt)) recs))) j
      = Inr (ND [length recs] (map (\<lambda>r. loose_call rt (r ! j)) recs))"
    using uni m by (intro column_converted) simp_all
  show ?thesis
    unfolding extract_columns_def table_of_def
    by (simp add: c bind_def astype_int_def o_def)
qed

lemma load_uniform:
  assumes fl: "fs fname = Some lines"
    and rows: "data_rows lines = recs"
    and n: "2 \<le> length recs"
    and uni: "\<forall>r\<in>set recs. length r = m"
    and m: "5 \<le> m"
  shows "load rt fs = Inr (table_of rt recs m)"
proof -
  have ne: "recs \<noteq> []" using n by auto
  have "genfromtxt rt fs fname
        = Inr (ND [length recs, m] (concat (map (map (loose_call rt)) recs)))"
    using genfromtxt_uniform [of fs fname lines recs m rt] fl rows ne uni n m
    by (simp add: squeeze_matrix)
  then show ?thesis
    using extract_columns_matrix [OF uni m] by (simp add: load_def bind_def)
qed

lemma column_Inr:
  "column a j = Inr c \<Longrightarrow> \<exists>n m rest. shape a = n # m # rest \<and> j < m"
  by (auto simp add: column_def split: list.splits if_splits)

lemma extract_columns_Inr:
  assumes "extract_columns rt d = Inr t"
  shows "\<exists>n m rest. shape d = n # m # rest \<and> 4 < m"
proof -
  from assms obtain c4 where "column d 4 = Inr c4"
    by (auto simp add: extract_columns_def bind_def split: sum.splits)
  then show ?thesis by (rule column_Inr)
qed

lemma load_Inr:
  assumes ok: "load rt fs = Inr t"
  obtains lines recs m where
    "fs fname = Some lines"
    "data_rows lines = recs"
    "2 \<le> length recs" "5 \<le> m" "\<forall>r\<in>set recs. length r = m"
    "t = table_of rt recs m"
proof -
  from ok obtain d where gen: "genfromtxt rt fs fname = Inr d"
    and ext: "extract_columns rt d = Inr t"
    by (auto simp add: load_def bind_def split: sum.splits)
  from gen obtain lines where fl: "fs fname = Some lines"
    by (cases "fs fname") (auto simp add: genfromtxt_def)
  define recs where "recs = data_rows lines"
  have rows: "data_rows lines = recs"
    by (simp add: recs_def)
  from extract_columns_Inr [OF ext] obtain n m rest
    where sh: "shape d = n # m # rest" and m4: "4 < m" by blast
  have ne: "recs \<noteq> []"
  proof
    assume "recs = []"
    then have "genfromtxt rt fs fname = Inr (ND [0] [])"
      using genfromtxt_empty [of fs fname lines rt] fl rows by simp
    with gen sh show False by auto
  qed
  then obtain r rs where recs: "recs = r # rs" by (cases recs) auto
  have uni: "\<forall>v\<in>set recs. length v = length r"
  proof (rule ccontr)
    assume "\<not> (\<forall>v\<in>set recs. length v = length r)"
    then have "\<exists>v\<in>set rs. length v \<noteq> length r" using recs by auto
    then have "genfromtxt rt fs fname = Inl ValueError"
      using genfromtxt_invalid [of fs fname lines r rs rt] fl rows recs by simp
    with gen show False by simp
  qed
  have d: "d = squeeze (ND [length recs, length r] (concat (map (map (loose_call rt)) recs)))"
    using genfromtxt_uniform [of fs fname lines recs "length r" rt, OF fl rows ne uni] gen
    by simp
  have "filter (\<lambda>k. k \<noteq> 1) [length recs, length r] = n # m # rest"
    using d sh by (simp add: squeeze_def)
  then have dims: "length recs \<noteq> 1" "length r \<noteq> 1" "n = length recs" "m = length r"
    by (auto split: if_splits)
  have "length recs \<noteq> 0" using ne by simp
  with dims(1) have n2: "2 \<le> length recs" by arith
  have m5: "5 \<le> length r" using dims(4) m4 by simp
  have "load rt fs = Inr (table_of rt recs (length r))"
    using fl rows n2 uni m5 by (rule load_uniform)
  with ok have "t = table_of rt recs (length r)" by simp
  with fl rows n2 m5 uni show ?thesis by (intro that [of lines recs "length r"])
qed

subsection \<open>Files of five fields a line\<close>

lemma data_rows_five:
  assumes "list_all five_fields rows"
  shows "data_rows (header # rows) = map split_line rows"
proof -
  have "\<forall>v\<in>set (map split_line rows). v \<noteq> []"
    using assms by (auto simp add: list_all_iff five_fields_def)
  then have "filter (\<lambda>v. v \<noteq> []) (map split_line rows) = map split_line rows"
    by (simp only: filter_True)
  then show ?thesis by (simp add: data_rows_def)
qed

lemma load_five:
  assumes fl: "fs fname = Some (header # rows)"
    and five: "list_all five_fields rows"
    and n: "2 \<le> length rows"
  shows "load rt fs = Inr (table_of rt (map split_line rows) 5)"
proof -
  have uni: "\<forall>r\<in>set (map split_line rows). length r = 5"
    using five by (auto simp add: list_all_iff five_fields_def)
  have n': "2 \<le> length (map split_line rows)" using n by simp
  show ?thesis
    using fl data_rows_five [OF five] n' uni by (rule load_uniform) simp
qed

lemma well_formed_five:
  "list_all (well_formed_row rt) rows \<Longrightarrow> list_all five_fields rows"
  by (simp add: list_all_iff well_formed_row_def)

subsection \<open>The tables that are loaded\<close>

lemma rowCount_table_of: "rowCount (table_of rt recs m) = length recs"
  by (simp add: rowCount_def table_of_def)

lemma table_inv_table_of: "table_inv (table_of rt recs m)"
  by (simp add: table_inv_def sequence_of_length_def rowCount_def table_of_def)

lemma slice_sequence:
  "sequence_of_length a n \<Longrightarrow> slice_upto a 3 = Inr (ND [min 3 n] (take 3 (flat a)))"
  by (simp add: sequence_of_length_def slice_upto_def min_def)

lemma run_print_slices:
  assumes "table_inv t"
  shows "run_prints (print_slices t)
         = ([IntLine (take 3 (flat (index t))), FloatLine (take 3 (flat (P t))),
             FloatLine (take 3 (flat (R t))), FloatLine (take 3 (flat (freq t))),
             IntLine (take 3 (flat (type t)))], None)"
proof -
  have "slice_upto (index t) 3 = Inr (ND [min 3 (rowCount t)] (take 3 (flat (index t))))"
    and "slice_upto (P t) 3 = Inr (ND [min 3 (rowCount t)] (take 3 (flat (P t))))"
    and "slice_upto (R t) 3 = Inr (ND [min 3 (rowCount t)] (take 3 (flat (R t))))"
    and "slice_upto (freq t) 3 = Inr (ND [min 3 (rowCount t)] (take 3 (flat (freq t))))"
    and "slice_upto (type t) 3 = Inr (ND [min 3 (rowCount t)] (take 3 (flat (type t))))"
    using assms by (simp_all add: table_inv_def slice_sequence)
  then show ?thesis
    by (simp add: print_slices_def print_ints_def print_floats_def bind_def)
qed

lemma inspect_table:
  assumes "table_inv t"
  shows "inspect t
         = ([ShapeLine (shape (data t)),
             IntLine (take 3 (flat (index t))), FloatLine (take 3 (flat (P t))),
             FloatLine (take 3 (flat (R t))), FloatLine (take 3 (flat (freq t))),
             IntLine (take 3 (flat (type t)))], None)"
  using run_print_slices [OF assms] by (simp add: inspect_def print_shape_def)

lemma script_load:
  assumes ok: "load rt fs = Inr t" and inv: "table_inv t"
  shows "script rt fs = (fst (inspect t), Inr t)"
proof -
  from ok obtain d where gen: "genfromtxt rt fs fname = Inr d"
    and ext: "extract_columns rt d = Inr t"
    by (auto simp add: load_def bind_def split: sum.splits)
  have d: "data t = d"
    using ext by (auto simp add: extract_columns_def bind_def split: sum.splits)
  show ?thesis
    using gen ext d run_print_slices [OF inv] inspect_table [OF inv]
    by (simp add: script_def print_shape_def)
qed

lemma script_load_fails:
  assumes gen: "genfromtxt rt fs fname = Inr d" and ext: "extract_columns rt d = Inl e"
  shows "script rt fs = ([ShapeLine (shape d)], Inl e)"
  using assms by (simp add: script_def print_shape_def)

lemma extract_columns_low_dim:
  "length (shape d) < 2 \<Longrightarrow> extract_columns rt d = Inl IndexError"
  by (cases "shape d"; cases "tl (shape d)")
     (auto simp add: extract_columns_def column_def bind_def)

text \<open>
  A table that is loaded has at least two rows, and a run that ends normally has printed
  six lines.
\<close>

lemma loaded_at_least_two_rows:
  assumes "load rt fs = Inr t"
  shows "2 \<le> rowCount t"
proof -
  from assms obtain lines recs m where "2 \<le> length recs" "t = table_of rt recs m"
    by (rule load_Inr)
  then show ?thesis by (simp add: rowCount_table_of)
qed

lemma script_Inr_load:
  assumes "snd (script rt fs) = Inr t"
  shows "load rt fs = Inr t"
  using assms
  by (auto simp add: script_def load_def bind_def print_shape_def
      split: sum.splits prod.splits option.splits)

lemma script_success_lines:
  assumes "snd (script rt fs) = Inr t"
  shows "fst (script rt fs)
         = [ShapeLine (shape (data t)),
            IntLine (take 3 (flat (index t))), FloatLine (take 3 (flat (P t))),
            FloatLine (take 3 (flat (R t))), FloatLine (take 3 (flat (freq t))),
            IntLine (take 3 (flat (type t)))]"
proof -
  have ok: "load rt fs = Inr t" using assms by (rule script_Inr_load)
  then obtain lines recs m where "t = table_of rt recs m" by (rule load_Inr)
  then have inv: "table_inv t" by (simp add: table_inv_table_of)
  show ?thesis
    using script_load [OF ok inv] inspect_table [OF inv] by simp
qed

subsection \<open>The cast to integer\<close>

lemma to_int_truncates:
  assumes "\<bar>a\<bar> < 2 ^ 63"
  shows "\<bar>of_int (to_int rt (Fin a))\<bar> \<le> \<bar>a\<bar> \<and> \<bar>a - of_int (to_int rt (Fin a))\<bar> < 1"
proof (cases "0 \<le> a")
  case True
  have "a < of_int (2 ^ 63)" using assms True by simp
  then have up: "\<lfloor>a\<rfloor> < 2 ^ 63" by (simp only: floor_less_iff)
  have lo: "0 \<le> \<lfloor>a\<rfloor>" using True by simp
  have k: "to_int rt (Fin a) = \<lfloor>a\<rfloor>"
    using True up lo by (simp add: to_int_def)
  have "of_int \<lfloor>a\<rfloor> \<le> a" "a < of_int \<lfloor>a\<rfloor> + 1" by linarith+
  then show ?thesis using True lo k by simp
next
  case False
  then have neg: "a < 0" by simp
  have "of_int (- (2 ^ 63)) - 1 < a" using assms neg by simp
  then have lo: "- (2 ^ 63) \<le> \<lceil>a\<rceil>" by (simp only: le_ceiling_iff)
  have up: "\<lceil>a\<rceil> \<le> 0" using neg by (simp add: ceiling_le_iff)
  have k: "to_int rt (Fin a) = \<lceil>a\<rceil>"
    using False up lo by (simp add: to_int_def)
  have "a \<le> of_int \<lceil>a\<rceil>" "of_int \<lceil>a\<rceil> < a + 1" by linarith+
  moreover have "of_int \<lceil>a\<rceil> \<le> (0::rat)" using up by simp
  ultimately show ?thesis using neg k by simp
qed

lemma truncated_11_4:
  assumes "\<bar>rat_of_int k\<bar> \<le> \<bar>- (11 / 4)\<bar>" "\<bar>- (11 / 4) - rat_of_int k\<bar> < 1"
  shows "k = - 2"
proof -
  have "rat_of_int k < - (7 / 4)" "- (11 / 4) \<le> rat_of_int k"
    using assms by (simp_all add: abs_le_iff abs_less_iff)
  then have "rat_of_int (4 * k) < rat_of_int (- 7)" "rat_of_int (- 11) \<le> rat_of_int (4 * k)"
    by simp_all
  then have "4 * k < - 7" "- 11 \<le> 4 * k"
    by (simp_all only: of_int_less_iff of_int_le_iff)
  then show ?thesis by arith
qed


lemma ceiling_minus_one_rat: "\<lceil>- 1 :: rat\<rceil> = - 1"
  using ceiling_of_int [of "- 1", where ?'a = rat] by simp

subsection \<open>The example files, evaluated\<close>

lemma rows_four:
  "map split_line (tl file_four)
   = [[''0'', ''0.5'', ''1.5'', ''440.0'', ''1''],
      [''1'', ''0.25'', ''1.75'', ''441.5'', ''0''],
      [''2'', ''0.75'', ''1.25'', ''442.5'', ''-1''],
      [''3'', ''0.125'', ''1.625'', ''443.25'', ''1'']]"
  by (simp add: file_four_def split_line_def strip_chars_def)

lemma well_formed_four: "list_all (well_formed_row rt0) (tl file_four)"
  using rows_four
  by (simp add: file_four_def well_formed_row_def five_fields_def numeric_fields_def
      rt0_def dec_float_def is_digit_def)

lemma table_of_four: "table_of rt0 (map split_line (tl file_four)) 5 = table_four"
  unfolding rows_four
  by (simp add: table_of_def table_four_def loose_call_def rt0_def dec_float_def
      is_digit_def to_int_def ceiling_minus_one_rat)

lemma load_four: "load rt0 (on_disk file_four) = Inr table_four"
proof -
  have "on_disk file_four fname = Some (hd file_four # tl file_four)"
    by (simp add: on_disk_def file_four_def)
  moreover have "list_all five_fields (tl file_four)"
    using well_formed_four by (rule well_formed_five)
  moreover have "2 \<le> length (tl file_four)" by (simp add: file_four_def)
  ultimately have
    "load rt0 (on_disk file_four) = Inr (table_of rt0 (map split_line (tl file_four)) 5)"
    by (rule load_five)
  then show ?thesis by (simp only: table_of_four)
qed

subsection \<open>Rows and tables of the files\<close>

lemma loaded_rows:
  assumes fl: "fs fname = Some (header # rows)"
    and five: "list_all five_fields rows"
    and ok: "load rt fs = Inr t"
  shows "2 \<le> length rows \<and> t = table_of rt (map split_line rows) 5"
proof -
  from ok obtain lines recs m where l: "fs fname = Some lines"
    and r: "data_rows lines = recs" and n: "2 \<le> length recs"
    by (rule load_Inr)
  have "recs = map split_line rows"
    using fl l r data_rows_five [OF five, of header] by simp
  with n have n2: "2 \<le> length rows" by simp
  with fl five have "load rt fs = Inr (table_of rt (map split_line rows) 5)"
    by (rule load_five)
  with ok n2 show ?thesis by simp
qed


lemma rows_bad:
  "map split_line (tl file_bad)
   = [[''0'', ''0.5'', ''1.5'', ''440.0'', ''1''],
      [''1'', ''0.25'', ''1.75'', ''441.5'', ''0''],
      [''2'', ''0.75'', ''1.25'', ''bad'', ''-1'']]"
  by (simp add: file_bad_def split_line_def strip_chars_def)

lemma five_bad: "list_all five_fields (tl file_bad)"
  using rows_bad by (simp add: file_bad_def five_fields_def)

lemma table_of_bad: "table_of rt0 (map split_line (tl file_bad)) 5 = table_bad"
  unfolding rows_bad
  by (simp add: table_of_def table_bad_def loose_call_def rt0_def dec_float_def
      is_digit_def to_int_def ceiling_minus_one_rat)

lemma load_bad: "load rt0 (on_disk file_bad) = Inr table_bad"
proof -
  have "on_disk file_bad fname = Some (hd file_bad # tl file_bad)"
    by (simp add: on_disk_def file_bad_def)
  moreover note five_bad
  moreover have "2 \<le> length (tl file_bad)" by (simp add: file_bad_def)
  ultimately have
    "load rt0 (on_disk file_bad) = Inr (table_of rt0 (map split_line (tl file_bad)) 5)"
    by (rule load_five)
  then show ?thesis by (simp only: table_of_bad)
qed

lemma rows_two:
  "map split_line (tl file_two)
   = [[''0'', ''0.5'', ''1.5'', ''440.0'', ''1''],
      [''1'', ''0.25'', ''1.75'', ''441.5'', ''0'']]"
  by (simp add: file_two_def split_line_def strip_chars_def)

lemma five_two: "list_all five_fields (tl file_two)"
  using rows_two by (simp add: file_two_def five_fields_def)

lemma table_of_two: "table_of rt0 (map split_line (tl file_two)) 5 = table_two"
  unfolding rows_two
  by (simp add: table_of_def table_two_def loose_call_def rt0_def dec_float_def
      is_digit_def to_int_def)

lemma load_two: "load rt0 (on_disk file_two) = Inr table_two"
proof -
  have "on_disk file_two fname = Some (hd file_two # tl file_two)"
    by (simp add: on_disk_def file_two_def)
  moreover note five_two
  moreover have "2 \<le> length (tl file_two)" by (simp add: file_two_def)
  ultimately have
    "load rt0 (on_disk file_two) = Inr (table_of rt0 (map split_line (tl file_two)) 5)"
    by (rule load_five)
  then show ?thesis by (simp only: table_of_two)
qed

lemma table_inv_two: "table_inv table_two"
  by (simp add: table_inv_def sequence_of_length_def rowCount_def table_two_def)

lemma rowCount_two: "rowCount table_two = 2"
  by (simp add: rowCount_def table_two_def)

subsection \<open>A whole number beyond the range, and files of one row\<close>


lemma one_row_load:
  assumes "fs fname = Some [header, row]"
    and "five_fields row"
  shows "load rt fs = Inl IndexError"
proof -
  have five: "list_all five_fields [row]" using assms(2) by simp
  have len: "length (split_line row) = 5" using assms(2) by (simp add: five_fields_def)
  have rows: "data_rows [header, row] = [split_line row]"
    using data_rows_five [OF five] by simp
  have gen: "genfromtxt rt fs fname = Inr (ND [5] (map (loose_call rt) (split_line row)))"
    using genfromtxt_uniform [where fs = fs and f = fname and rt = rt, OF assms(1) rows] len
    by (simp add: squeeze_def)
  have ext: "extract_columns rt (ND [5] (map (loose_call rt) (split_line row))) = Inl IndexError"
    by (rule extract_columns_low_dim) simp
  show ?thesis using gen ext by (simp add: load_def bind_def)
qed







section \<open>The claims\<close>

text \<open>
  C1, as stated: if any data line of the input file contains a non-numeric token, \<open>load\<close>
  fails with a ParseError and no table is returned. It does not hold: the third data line
  of \<open>file_bad\<close> has the field \<^verbatim>\<open>bad\<close>, and \<open>load\<close> returns a table, with not-a-number
  in its place.
\<close>

theorem non_numeric_token_loads_counterexample:
  "\<not> numeric_fields rt0 (file_bad ! 3) \<and>
   on_disk file_bad fname = Some file_bad \<and>
   load rt0 (on_disk file_bad) = Inr table_bad"
proof -
  have "float_of rt0 ''bad'' = None"
    by (simp add: rt0_def dec_float_def is_digit_def)
  moreover have "split_line (file_bad ! 3) = [''2'', ''0.75'', ''1.25'', ''bad'', ''-1'']"
    by (simp add: file_bad_def split_line_def strip_chars_def)
  ultimately have "\<not> numeric_fields rt0 (file_bad ! 3)"
    by (simp add: numeric_fields_def)
  moreover have "on_disk file_bad fname = Some file_bad"
    by (simp add: on_disk_def)
  ultimately show ?thesis using load_bad by simp
qed

text \<open>
  C1, amended. If a data line of a file with at least two data lines, of five
  comma-separated fields each, contains a non-numeric token, \<open>load\<close> does not fail: it
  returns a table with one row per data line, and the field is not-a-number in the matrix
  \<open>data\<close>, from which the five sequences take their entries (phase, resonance and
  frequency as they are, index and label through the integer cast).
\<close>

theorem non_numeric_token_is_nan:
  assumes "fs fname = Some (header # rows)"
    and "list_all five_fields rows"
    and "2 \<le> length rows"
    and "i < length rows"
    and "j < 5"
    and "float_of rt (split_line (rows ! i) ! j) = None"
  shows "\<exists>t. load rt fs = Inr t \<and> rowCount t = length rows \<and>
           flat (data t) ! (i * 5 + j) = NaN \<and>
           flat (index t) ! i = to_int rt (flat (data t) ! (i * 5)) \<and>
           flat (P t) ! i = flat (data t) ! (i * 5 + 1) \<and>
           flat (R t) ! i = flat (data t) ! (i * 5 + 2) \<and>
           flat (freq t) ! i = flat (data t) ! (i * 5 + 3) \<and>
           flat (type t) ! i = to_int rt (flat (data t) ! (i * 5 + 4))"
proof -
  define recs where "recs = map (map (loose_call rt)) (map split_line rows)"
  define t where "t = table_of rt (map split_line rows) 5"
  have ok: "load rt fs = Inr t"
    unfolding t_def using assms(1,2,3) by (rule load_five)
  have uni: "\<forall>r\<in>set recs. length r = 5"
    using assms(2) by (auto simp add: recs_def list_all_iff five_fields_def)
  have i: "i < length recs" using assms(4) by (simp add: recs_def)
  have d: "flat (data t) = concat recs"
    by (simp add: t_def table_of_def recs_def)
  have len: "length (split_line (rows ! i)) = 5"
    using assms(2,4) by (simp add: list_all_length five_fields_def)
  have cell: "\<And>c. c < 5 \<Longrightarrow>
      flat (data t) ! (i * 5 + c) = loose_call rt (split_line (rows ! i) ! c)"
    using concat_uniform_nth [OF uni i] assms(4) len by (simp add: d recs_def)
  have "flat (data t) ! (i * 5 + j) = NaN"
    using cell [OF assms(5)] assms(6) by (simp add: loose_call_def)
  moreover have "flat (index t) ! i = to_int rt (flat (data t) ! (i * 5))"
    using cell [of 0] assms(4) by (simp add: t_def table_of_def)
  moreover have "flat (P t) ! i = flat (data t) ! (i * 5 + 1)"
    using cell [of 1] assms(4) by (simp add: t_def table_of_def)
  moreover have "flat (R t) ! i = flat (data t) ! (i * 5 + 2)"
    using cell [of 2] assms(4) by (simp add: t_def table_of_def)
  moreover have "flat (freq t) ! i = flat (data t) ! (i * 5 + 3)"
    using cell [of 3] assms(4) by (simp add: t_def table_of_def)
  moreover have "flat (type t) ! i = to_int rt (flat (data t) ! (i * 5 + 4))"
    using cell [of 4] assms(4) by (simp add: t_def table_of_def)
  moreover have "rowCount t = length rows"
    by (simp add: t_def rowCount_table_of)
  ultimately show ?thesis using ok by blast
qed

theorem non_numeric_token_is_nan_witness:
  "on_disk file_bad fname = Some file_bad \<and> list_all five_fields (tl file_bad) \<and>
   2 \<le> length (tl file_bad) \<and> 2 < length (tl file_bad) \<and> (3::nat) < 5 \<and>
   float_of rt0 (split_line (tl file_bad ! 2) ! 3) = None \<and>
   (\<exists>t. load rt0 (on_disk file_bad) = Inr t \<and> rowCount t = length (tl file_bad) \<and>
      flat (data t) ! (2 * 5 + 3) = NaN \<and>
      flat (index t) ! 2 = to_int rt0 (flat (data t) ! (2 * 5)) \<and>
      flat (P t) ! 2 = flat (data t) ! (2 * 5 + 1) \<and>
      flat (R t) ! 2 = flat (data t) ! (2 * 5 + 2) \<and>
      flat (freq t) ! 2 = flat (data t) ! (2 * 5 + 3) \<and>
      flat (type t) ! 2 = to_int rt0 (flat (data t) ! (2 * 5 + 4)))"
proof -
  have a: "on_disk file_bad fname = Some (hd file_bad # tl file_bad)"
    by (simp add: on_disk_def file_bad_def)
  have c: "2 \<le> length (tl file_bad)" "2 < length (tl file_bad)"
    by (simp_all add: file_bad_def)
  have d: "(3::nat) < 5" by simp
  have f: "float_of rt0 (split_line (tl file_bad ! 2) ! 3) = None"
    by (simp add: file_bad_def split_line_def strip_chars_def rt0_def dec_float_def
        is_digit_def)
  have e: "hd file_bad # tl file_bad = file_bad" by (simp add: file_bad_def)
  show ?thesis
    using non_numeric_token_is_nan [where fs = "on_disk file_bad" and rt = rt0,
        OF a five_bad c(1) c(2) d f] a five_bad c d f
    by (simp only: e simp_thms)
qed

text \<open>
  C2, as stated: for every table with \<open>rowCount < 3\<close>, such as the one of a file with a
  header and exactly two data rows, \<open>inspect\<close> fails with an IndexError when it takes the
  first three elements of each sequence. It does not hold: on the table of \<open>file_two\<close>,
  with two rows, \<open>inspect\<close> prints its six lines and raises nothing.
\<close>

theorem inspect_two_rows_counterexample:
  "load rt0 (on_disk file_two) = Inr table_two \<and> rowCount table_two = 2 \<and>
   inspect table_two
   = ([ShapeLine [2, 5], IntLine [0, 1], FloatLine [Fin (1 / 2), Fin (1 / 4)],
       FloatLine [Fin (3 / 2), Fin (7 / 4)], FloatLine [Fin 440, Fin (883 / 2)],
       IntLine [1, 0]], None)"
proof -
  have "inspect table_two
   = ([ShapeLine [2, 5], IntLine [0, 1], FloatLine [Fin (1 / 2), Fin (1 / 4)],
       FloatLine [Fin (3 / 2), Fin (7 / 4)], FloatLine [Fin 440, Fin (883 / 2)],
       IntLine [1, 0]], None)"
    using inspect_table [OF table_inv_two] by (simp add: table_two_def)
  with load_two rowCount_two show ?thesis by simp
qed

text \<open>
  C2, amended. For every table with \<open>rowCount < 3\<close>, \<open>inspect\<close> does not fail: the slice
  of the first three elements ends where the sequence ends, so \<open>inspect\<close> prints the shape
  and then every sequence whole, each on its own line.
\<close>

theorem inspect_short_table:
  assumes "table_inv t"
    and "rowCount t < 3"
  shows "inspect t
         = ([ShapeLine (shape (data t)), IntLine (flat (index t)), FloatLine (flat (P t)),
             FloatLine (flat (R t)), FloatLine (flat (freq t)), IntLine (flat (type t))],
            None)"
proof -
  have "length (flat (index t)) \<le> 3" "length (flat (P t)) \<le> 3" "length (flat (R t)) \<le> 3"
    "length (flat (freq t)) \<le> 3" "length (flat (type t)) \<le> 3"
    using assms by (simp_all add: table_inv_def sequence_of_length_def)
  then show ?thesis using inspect_table [OF assms(1)] by simp
qed

theorem inspect_short_table_witness:
  "table_inv table_two \<and> rowCount table_two < 3 \<and>
   inspect table_two
   = ([ShapeLine (shape (data table_two)), IntLine (flat (index table_two)),
       FloatLine (flat (P table_two)), FloatLine (flat (R table_two)),
       FloatLine (flat (freq table_two)), IntLine (flat (type table_two))], None)"
proof -
  have lt: "rowCount table_two < 3" by (simp add: rowCount_two)
  show ?thesis using inspect_short_table [OF table_inv_two lt] table_inv_two lt by simp
qed

text \<open>
  C3. For every well-formed input file, a header line followed by \<open>N\<close> data rows of
  exactly five numeric fields each with \<open>N \<ge> 3\<close>, \<open>load\<close> returns a table with
  \<open>rowCount = N\<close> whose five sequences (index, phase, resonance, frequency, label) all
  have length \<open>N\<close>, whatever \<open>N\<close> is.
\<close>

theorem load_row_count:
  assumes "fs fname = Some (header # rows)"
    and "list_all (well_formed_row rt) rows"
    and "length rows = N"
    and "3 \<le> N"
  shows "\<exists>t. load rt fs = Inr t \<and> rowCount t = N \<and> shape (data t) = [N, 5] \<and>
           sequence_of_length (index t) N \<and> sequence_of_length (P t) N \<and>
           sequence_of_length (R t) N \<and> sequence_of_length (freq t) N \<and>
           sequence_of_length (type t) N"
proof -
  have five: "list_all five_fields rows"
    using assms(2) by (rule well_formed_five)
  have "2 \<le> length rows" using assms(3,4) by simp
  with assms(1) five have "load rt fs = Inr (table_of rt (map split_line rows) 5)"
    by (rule load_five)
  moreover have "rowCount (table_of rt (map split_line rows) 5) = N"
    using assms(3) by (simp add: rowCount_table_of)
  moreover have "shape (data (table_of rt (map split_line rows) 5)) = [N, 5]"
    using assms(3) by (simp add: table_of_def)
  moreover have "table_inv (table_of rt (map split_line rows) 5)"
    by (rule table_inv_table_of)
  ultimately show ?thesis by (auto simp add: table_inv_def)
qed

theorem load_row_count_witness:
  "on_disk file_four fname = Some file_four \<and>
   list_all (well_formed_row rt0) (tl file_four) \<and> length (tl file_four) = 4 \<and>
   (\<exists>t. load rt0 (on_disk file_four) = Inr t \<and> rowCount t = 4 \<and> shape (data t) = [4, 5] \<and>
        sequence_of_length (index t) 4 \<and> sequence_of_length (P t) 4 \<and>
        sequence_of_length (R t) 4 \<and> sequence_of_length (freq t) 4 \<and>
        sequence_of_length (type t) 4)"
proof -
  have a: "on_disk file_four fname = Some (hd file_four # tl file_four)"
    by (simp add: on_disk_def file_four_def)
  have c: "length (tl file_four) = 4" by (simp add: file_four_def)
  have d: "(3::nat) \<le> 4" by simp
  have e: "hd file_four # tl file_four = file_four" by (simp add: file_four_def)
  show ?thesis
    using load_row_count [where fs = "on_disk file_four" and rt = rt0, OF a well_formed_four c d]
      a c well_formed_four
    by (simp only: e simp_thms)
qed




text \<open>
  C5. Every table that \<open>load\<close> produces satisfies the invariant: the five sequences
  (index, phase, resonance, frequency, label) are of equal length, \<open>rowCount\<close>. The
  table is not changed after its construction: the statements that print leave the
  variables as \<open>load\<close> set them.
\<close>

theorem load_invariant:
  assumes "load rt fs = Inr t"
  shows "table_inv t \<and> snd (script rt fs) = Inr t"
proof -
  from assms obtain lines recs m where "t = table_of rt recs m"
    by (rule load_Inr)
  then have inv: "table_inv t" by (simp add: table_inv_table_of)
  with assms have "script rt fs = (fst (inspect t), Inr t)" by (rule script_load)
  with inv show ?thesis by simp
qed

theorem load_invariant_witness:
  "load rt0 (on_disk file_four) = Inr table_four \<and> table_inv table_four \<and>
   snd (script rt0 (on_disk file_four)) = Inr table_four"
  using load_invariant [OF load_four] load_four by simp



text \<open>
  C7. \<open>load\<close> is a function of the contents of the data file alone: on two file systems
  that hold the same data file, \<open>load\<close> gives the same result, and the whole script
  prints and ends the same.
\<close>

theorem load_deterministic:
  assumes "fs1 fname = fs2 fname"
  shows "load rt fs1 = load rt fs2 \<and> script rt fs1 = script rt fs2"
proof -
  have "genfromtxt rt fs1 fname = genfromtxt rt fs2 fname"
    using assms by (simp add: genfromtxt_def)
  then show ?thesis by (simp add: load_def script_def)
qed

theorem load_deterministic_witness:
  "on_disk file_four fname = ((on_disk file_four) (''notes.txt'' := Some [''x''])) fname \<and>
   on_disk file_four \<noteq> (on_disk file_four) (''notes.txt'' := Some [''x'']) \<and>
   load rt0 (on_disk file_four) = load rt0 ((on_disk file_four) (''notes.txt'' := Some [''x''])) \<and>
   script rt0 (on_disk file_four)
     = script rt0 ((on_disk file_four) (''notes.txt'' := Some [''x'']))"
proof -
  have a: "on_disk file_four fname = ((on_disk file_four) (''notes.txt'' := Some [''x''])) fname"
    by (simp add: fname_def)
  have "on_disk file_four ''notes.txt'' = None"
    by (simp add: on_disk_def fname_def)
  then have b: "on_disk file_four \<noteq> (on_disk file_four) (''notes.txt'' := Some [''x''])"
    by (metis fun_upd_same option.distinct(1))
  show ?thesis
    using load_deterministic [where ?fs1.0 = "on_disk file_four"
        and ?fs2.0 = "(on_disk file_four) (''notes.txt'' := Some [''x''])" and rt = rt0, OF a] a b
    by simp
qed

text \<open>
  C8, as stated: on a header line and zero data rows \<open>load\<close> succeeds and returns a table
  with \<open>rowCount = 0\<close>, and only \<open>inspect\<close> fails. It does not hold: on \<open>file_header\<close>
  it is \<open>load\<close> that fails.
\<close>

theorem header_only_load_counterexample:
  "on_disk file_header fname = Some file_header \<and> data_rows file_header = [] \<and>
   load rt0 (on_disk file_header) = Inl IndexError"
  by (simp add: on_disk_def file_header_def data_rows_def load_def genfromtxt_def bind_def
      np_array_def squeeze_def extract_columns_def column_def)

text \<open>
  C8, amended. On a file of a header line and zero data rows, the bulk read returns an
  empty one-dimensional array, of shape \<open>(0,)\<close>; the extraction of the columns then fails
  with an IndexError, so that \<open>load\<close> returns no table, and the script ends after the
  line with the shape, before the slices of \<open>inspect\<close>.
\<close>

theorem header_only_fails_in_load:
  assumes "fs fname = Some [header]"
  shows "genfromtxt rt fs fname = Inr (ND [0] []) \<and> load rt fs = Inl IndexError \<and>
         script rt fs = ([ShapeLine [0]], Inl IndexError)"
proof -
  have rows: "data_rows [header] = []" by (simp add: data_rows_def)
  have gen: "genfromtxt rt fs fname = Inr (ND [0] [])"
    using assms rows by (rule genfromtxt_empty)
  have ext: "extract_columns rt (ND [0] []) = Inl IndexError"
    by (rule extract_columns_low_dim) simp
  have "load rt fs = Inl IndexError"
    using gen ext by (simp add: load_def bind_def)
  moreover have "script rt fs = ([ShapeLine [0]], Inl IndexError)"
    using script_load_fails [OF gen ext] by simp
  ultimately show ?thesis using gen by simp
qed

theorem header_only_fails_in_load_witness:
  "on_disk file_header fname = Some file_header \<and>
   genfromtxt rt0 (on_disk file_header) fname = Inr (ND [0] []) \<and>
   load rt0 (on_disk file_header) = Inl IndexError \<and>
   script rt0 (on_disk file_header) = ([ShapeLine [0]], Inl IndexError)"
proof -
  have a: "on_disk file_header fname = Some [hd file_header]"
    by (simp add: on_disk_def file_header_def)
  have e: "[hd file_header] = file_header" by (simp add: file_header_def)
  show ?thesis
    using header_only_fails_in_load [where fs = "on_disk file_header" and rt = rt0, OF a] a
    by (simp only: e simp_thms)
qed

text \<open>
  C9. On a file of a header line and exactly one data row of five numeric fields, the
  bulk read returns a one-dimensional array of length five, not a matrix of shape
  \<open>(1, 5)\<close>; the extraction of the columns fails with an IndexError and no table is
  produced, although the row is well formed.
\<close>

theorem one_row_is_one_dimensional:
  assumes "fs fname = Some [header, row]"
    and "well_formed_row rt row"
  shows "genfromtxt rt fs fname = Inr (ND [5] (map (loose_call rt) (split_line row))) \<and>
         length (map (loose_call rt) (split_line row)) = 5 \<and>
         load rt fs = Inl IndexError \<and>
         script rt fs = ([ShapeLine [5]], Inl IndexError)"
proof -
  have five: "list_all five_fields [row]"
    using assms(2) by (simp add: well_formed_row_def)
  then have len: "length (split_line row) = 5" by (simp add: five_fields_def)
  have rows: "data_rows [header, row] = [split_line row]"
    using data_rows_five [OF five] by simp
  have gen: "genfromtxt rt fs fname = Inr (ND [5] (map (loose_call rt) (split_line row)))"
    using genfromtxt_uniform [where fs = fs and f = fname and rt = rt, OF assms(1) rows] len
    by (simp add: squeeze_def)
  have ext: "extract_columns rt (ND [5] (map (loose_call rt) (split_line row))) = Inl IndexError"
    by (rule extract_columns_low_dim) simp
  have "load rt fs = Inl IndexError"
    using gen ext by (simp add: load_def bind_def)
  moreover have "script rt fs = ([ShapeLine [5]], Inl IndexError)"
    using script_load_fails [OF gen ext] by simp
  ultimately show ?thesis using gen len by simp
qed

theorem one_row_is_one_dimensional_witness:
  "on_disk file_one fname = Some file_one \<and> well_formed_row rt0 (file_one ! 1) \<and>
   genfromtxt rt0 (on_disk file_one) fname
     = Inr (ND [5] (map (loose_call rt0) (split_line (file_one ! 1)))) \<and>
   length (map (loose_call rt0) (split_line (file_one ! 1))) = 5 \<and>
   load rt0 (on_disk file_one) = Inl IndexError \<and>
   script rt0 (on_disk file_one) = ([ShapeLine [5]], Inl IndexError)"
proof -
  have a: "on_disk file_one fname = Some [hd file_one, file_one ! 1]"
    by (simp add: on_disk_def file_one_def)
  have b: "well_formed_row rt0 (file_one ! 1)"
    by (simp add: file_one_def well_formed_row_def five_fields_def numeric_fields_def
        split_line_def strip_chars_def rt0_def dec_float_def is_digit_def)
  have e: "[hd file_one, file_one ! 1] = file_one" by (simp add: file_one_def)
  show ?thesis
    using one_row_is_one_dimensional [where fs = "on_disk file_one" and rt = rt0, OF a b] a b
    by (simp only: e simp_thms)
qed

text \<open>
  C10, as stated: for every input file whose column 0 or column 4 holds a non-integer
  numeric value, \<open>load\<close> succeeds and stores the truncated integer. It does not hold:
  \<open>file_one_fraction\<close> has the fraction \<^verbatim>\<open>0.5\<close> in column 0 of its one data row, and
  \<open>load\<close> fails on it with an IndexError.
\<close>

theorem integer_casts_truncate_counterexample:
  "on_disk file_one_fraction fname = Some file_one_fraction \<and>
   float_of rt0 (split_line (file_one_fraction ! 1) ! 0) = Some (Fin (1 / 2)) \<and>
   load rt0 (on_disk file_one_fraction) = Inl IndexError"
proof -
  have a: "on_disk file_one_fraction fname
           = Some [hd file_one_fraction, file_one_fraction ! 1]"
    by (simp add: on_disk_def file_one_fraction_def)
  have "five_fields (file_one_fraction ! 1)"
    by (simp add: file_one_fraction_def five_fields_def split_line_def strip_chars_def)
  with a have "load rt0 (on_disk file_one_fraction) = Inl IndexError"
    by (rule one_row_load)
  moreover have "on_disk file_one_fraction fname = Some file_one_fraction"
    by (simp add: on_disk_def)
  moreover have
    "float_of rt0 (split_line (file_one_fraction ! 1) ! 0) = Some (Fin (1 / 2))"
    by (simp add: file_one_fraction_def split_line_def strip_chars_def rt0_def
        dec_float_def is_digit_def)
  ultimately show ?thesis by simp
qed

text \<open>
  C10, amended. The integer casts of the columns 0 and 4 truncate toward zero. In a file of at
  least two data rows of five fields each, let the field in column 0 or 4 of row \<open>i\<close> be
  a finite number \<open>a\<close> within the 64-bit range, an integer or not. Then \<open>load\<close> succeeds,
  and entry \<open>i\<close> of index (column 0) or of label (column 4) is the integer \<open>k\<close> with
  \<open>\<bar>k\<bar> \<le> \<bar>a\<bar>\<close> and \<open>\<bar>a - k\<bar> < 1\<close>: \<open>a\<close> without its fraction.
\<close>

theorem integer_casts_truncate:
  assumes "fs fname = Some (header # rows)"
    and "list_all five_fields rows"
    and "2 \<le> length rows"
    and "i < length rows"
    and "j = 0 \<or> j = 4"
    and "float_of rt (split_line (rows ! i) ! j) = Some (Fin a)"
    and "\<bar>a\<bar> < 2 ^ 63"
  shows "\<exists>t k. load rt fs = Inr t \<and>
           k = flat (if j = 0 then index t else type t) ! i \<and>
           \<bar>of_int k\<bar> \<le> \<bar>a\<bar> \<and> \<bar>a - of_int k\<bar> < 1"
proof -
  define t where "t = table_of rt (map split_line rows) 5"
  have ok: "load rt fs = Inr t"
    unfolding t_def using assms(1,2,3) by (rule load_five)
  have "flat (if j = 0 then index t else type t) ! i = to_int rt (Fin a)"
    using assms(4,5,6) by (auto simp add: t_def table_of_def loose_call_def)
  with to_int_truncates [OF assms(7), of rt] ok show ?thesis by auto
qed

theorem integer_casts_truncate_witness:
  "on_disk file_fractions fname = Some file_fractions \<and>
   list_all five_fields (tl file_fractions) \<and> 2 \<le> length (tl file_fractions) \<and>
   2 < length (tl file_fractions) \<and>
   float_of rt0 (split_line (tl file_fractions ! 2) ! 0) = Some (Fin (- (11 / 4))) \<and>
   (\<exists>t k. load rt0 (on_disk file_fractions) = Inr t \<and>
      k = flat (index t) ! 2 \<and> \<bar>of_int k\<bar> \<le> \<bar>- (11 / 4) :: rat\<bar> \<and>
      \<bar>- (11 / 4) - of_int k :: rat\<bar> < 1 \<and> k = - 2)"
proof -
  have a: "on_disk file_fractions fname = Some (hd file_fractions # tl file_fractions)"
    by (simp add: on_disk_def file_fractions_def)
  have b: "list_all five_fields (tl file_fractions)"
    by (simp add: file_fractions_def five_fields_def split_line_def strip_chars_def)
  have c: "2 \<le> length (tl file_fractions)" "2 < length (tl file_fractions)"
    by (simp_all add: file_fractions_def)
  have d: "(0::nat) = 0 \<or> (0::nat) = 4" by simp
  have f: "float_of rt0 (split_line (tl file_fractions ! 2) ! 0) = Some (Fin (- (11 / 4)))"
    by (simp add: file_fractions_def split_line_def strip_chars_def rt0_def dec_float_def
        is_digit_def)
  have g: "\<bar>- (11 / 4) :: rat\<bar> < 2 ^ 63" by simp
  have e: "hd file_fractions # tl file_fractions = file_fractions"
    by (simp add: file_fractions_def)
  have "\<exists>t k. load rt0 (on_disk file_fractions) = Inr t \<and>
      k = flat (index t) ! 2 \<and> \<bar>of_int k\<bar> \<le> \<bar>- (11 / 4) :: rat\<bar> \<and>
      \<bar>- (11 / 4) - of_int k :: rat\<bar> < 1"
    using integer_casts_truncate [where fs = "on_disk file_fractions" and rt = rt0,
        OF a b c(1) c(2) d f g]
    by (simp only: simp_thms if_True)
  then have "\<exists>t k. load rt0 (on_disk file_fractions) = Inr t \<and>
      k = flat (index t) ! 2 \<and> \<bar>of_int k\<bar> \<le> \<bar>- (11 / 4) :: rat\<bar> \<and>
      \<bar>- (11 / 4) - of_int k :: rat\<bar> < 1 \<and> k = - 2"
    using truncated_11_4 by blast
  with a b c f show ?thesis by (simp only: e simp_thms)
qed

end
